theory Spec2Isabelle
  imports Main "HOL-Library.AList"
begin

section \<open>Configuration values\<close>

text \<open>
  The configuration documents handled by \<^verbatim>\<open>app-shell/src/config.js\<close> are JSON
  values: the persisted document is read from and written to a JSON file, and the
  override tree is the object returned by the argument parser.  An object is an
  association list of its own enumerable properties (the first binding of a key is the
  visible one; no object has an own key \<^verbatim>\<open>__proto__\<close>), an array is the list of its
  elements.  Numbers are finite and stand for integers.  The JavaScript value
  \<^verbatim>\<open>undefined\<close> is \<open>None\<close> of an option type.
\<close>

datatype json =
    JNull
  | JBool bool
  | JNum int
  | JStr string
  | JArr "json list"
  | JObj "(string \<times> json) list"

text \<open>
  Reading a property can also yield a value that is no data: a function or an object
  of the engine, such as \<^verbatim>\<open>Object\<close> (the \<^verbatim>\<open>constructor\<close> that every object
  inherits) or \<^verbatim>\<open>Boolean.prototype.toString\<close>.  Such a value is known by a name only.
\<close>

datatype jsval = Data json | Native string

datatype error = TypeError | RangeError

text \<open>
  What the engine contributes is a parameter of the model:
  \<^item> \<open>inherited k p\<close>, the result of reading property \<open>p\<close> of a value of kind \<open>k\<close>
    that has no own property \<open>p\<close> (the prototype chain; for a built-in value, all of
    its properties); reading may throw;
  \<^item> \<open>set_outside w ps v\<close>, whether \<^verbatim>\<open>dotProp.set\<close> throws when it continues its walk
    along \<open>ps\<close> on an inherited value \<open>w\<close>, outside the document;
  \<^item> \<open>plain_builtin n\<close>, whether the built-in object \<open>n\<close> counts as a plain object
    (it then has no enumerable keys, as \<^verbatim>\<open>Object.prototype\<close>);
  \<^item> \<open>to_number s\<close>, the integer that the string \<open>s\<close> converts to, if any.
  Writes that reach built-in values are not tracked: \<open>inherited\<close> is fixed.
\<close>

datatype kind = KObject | KArray | KString | KNumber | KBoolean | KNative string

record engine =
  inherited :: "kind \<Rightarrow> string \<Rightarrow> error + jsval option"
  set_outside :: "jsval \<Rightarrow> string list \<Rightarrow> json \<Rightarrow> error option"
  plain_builtin :: "string \<Rightarrow> bool"
  to_number :: "string \<Rightarrow> int option"

fun kind_of :: "json \<Rightarrow> kind" where
  "kind_of (JArr xs) = KArray"
| "kind_of (JStr s) = KString"
| "kind_of (JNum n) = KNumber"
| "kind_of (JBool b) = KBoolean"
| "kind_of v = KObject"

text \<open>\<^verbatim>\<open>x != null\<close>: neither \<^verbatim>\<open>undefined\<close> nor \<^verbatim>\<open>null\<close>.\<close>

definition not_nullish :: "jsval option \<Rightarrow> bool" where
  "not_nullish v = (case v of None \<Rightarrow> False | Some (Data JNull) \<Rightarrow> False | Some _ \<Rightarrow> True)"

text \<open>\<^verbatim>\<open>typeof x === 'object' && x != null\<close>: plain objects and arrays.\<close>

definition typeof_object :: "json option \<Rightarrow> bool" where
  "typeof_object v = (case v of Some (JObj _) \<Rightarrow> True | Some (JArr _) \<Rightarrow> True | _ \<Rightarrow> False)"

text \<open>JavaScript truthiness, as used by \<^verbatim>\<open>a || b\<close> and \<^verbatim>\<open>a ? b : c\<close>.\<close>

definition truthy :: "jsval option \<Rightarrow> bool" where
  "truthy v = (case v of
       None \<Rightarrow> False
     | Some (Native n) \<Rightarrow> True
     | Some (Data JNull) \<Rightarrow> False
     | Some (Data (JBool b)) \<Rightarrow> b
     | Some (Data (JNum n)) \<Rightarrow> n \<noteq> 0
     | Some (Data (JStr s)) \<Rightarrow> s \<noteq> []
     | Some (Data _) \<Rightarrow> True)"

subsection \<open>Property access\<close>

text \<open>
  An array index is the canonical decimal spelling of a number below \<open>2^32 - 1\<close>:
  \<^verbatim>\<open>"0"\<close>, \<^verbatim>\<open>"17"\<close>, but not \<^verbatim>\<open>"017"\<close> or \<^verbatim>\<open>""\<close>.
\<close>

definition is_digit :: "char \<Rightarrow> bool" where
  "is_digit c = (c \<in> set ''0123456789'')"

definition digit_val :: "char \<Rightarrow> nat" where
  "digit_val c = (of_char c :: nat) - 48"

definition decimal :: "string \<Rightarrow> nat" where
  "decimal s = foldl (\<lambda>n c. 10 * n + digit_val c) 0 s"

definition array_index :: "string \<Rightarrow> nat option" where
  "array_index s =
     (if s = [] \<or> \<not> list_all is_digit s then None
      else if hd s = CHR ''0'' \<and> tl s \<noteq> [] then None
      else if decimal s < 4294967295 then Some (decimal s) else None)"

definition nth_opt :: "'a list \<Rightarrow> nat \<Rightarrow> 'a option" where
  "nth_opt xs i = (if i < length xs then Some (xs ! i) else None)"

text \<open>
  The own enumerable properties of a value: the keys of an object, the indices of an
  array, the indices of a string (each a one-character string).  This is the test
  \<^verbatim>\<open>Object.prototype.propertyIsEnumerable.call(obj, key)\<close> followed by \<^verbatim>\<open>obj[key]\<close>.
\<close>

fun own_enum :: "json \<Rightarrow> string \<Rightarrow> json option" where
  "own_enum (JObj kvs) k = map_of kvs k"
| "own_enum (JArr xs) k =
     (case array_index k of None \<Rightarrow> None | Some i \<Rightarrow> nth_opt xs i)"
| "own_enum (JStr s) k =
     (case array_index k of None \<Rightarrow> None
      | Some i \<Rightarrow> map_option (\<lambda>c. JStr [c]) (nth_opt s i))"
| "own_enum _ k = None"

text \<open>
  All own properties: the enumerable ones and the \<^verbatim>\<open>length\<close> of arrays and strings.
\<close>

fun own_prop :: "json \<Rightarrow> string \<Rightarrow> json option" where
  "own_prop (JArr xs) k =
     (if k = ''length'' then Some (JNum (int (length xs))) else own_enum (JArr xs) k)"
| "own_prop (JStr s) k =
     (if k = ''length'' then Some (JNum (int (length s))) else own_enum (JStr s) k)"
| "own_prop v k = own_enum v k"

text \<open>
  \<^verbatim>\<open>s[k]\<close>: an own property if there is one, else what the value inherits.  Reading a
  property of \<^verbatim>\<open>null\<close> throws.
\<close>

fun js_prop :: "engine \<Rightarrow> jsval \<Rightarrow> string \<Rightarrow> error + jsval option" where
  "js_prop g (Native n) k = inherited g (KNative n) k"
| "js_prop g (Data JNull) k = Inl TypeError"
| "js_prop g (Data d) k =
     (case own_prop d k of
        Some x \<Rightarrow> Inr (Some (Data x))
      | None \<Rightarrow> inherited g (kind_of d) k)"

subsection \<open>Paths\<close>

text \<open>\<^verbatim>\<open>path.split('.')\<close>.\<close>

fun split_dot :: "string \<Rightarrow> string list" where
  "split_dot [] = [[]]"
| "split_dot (c # cs) =
     (if c = CHR ''.'' then [] # split_dot cs
      else (case split_dot cs of [] \<Rightarrow> [[c]] | w # ws \<Rightarrow> (c # w) # ws))"

text \<open>
  Package \<^verbatim>\<open>@thi.ng/paths\<close>: \<^verbatim>\<open>toPath\<close> turns a string into its dot-separated
  segments; the empty string and a missing path are the empty path.
  \<^verbatim>\<open>getIn(state, path)\<close> follows the segments, reading \<^verbatim>\<open>s[k]\<close> at each, and stops
  with \<^verbatim>\<open>undefined\<close> as soon as the value at hand is falsy
  (\<^verbatim>\<open>s ? s[k] : undefined\<close>).
\<close>

definition toPath :: "string option \<Rightarrow> string list" where
  "toPath path = (case path of None \<Rightarrow> [] | Some s \<Rightarrow> if s = [] then [] else split_dot s)"

fun getter :: "engine \<Rightarrow> string list \<Rightarrow> jsval option \<Rightarrow> error + jsval option" where
  "getter g [] s = Inr s"
| "getter g (k # ks) s =
     (case s of
        None \<Rightarrow> Inr None
      | Some v \<Rightarrow>
          if \<not> truthy (Some v) then Inr None
          else (case js_prop g v k of Inl err \<Rightarrow> Inl err | Inr s' \<Rightarrow> getter g ks s'))"

definition getIn :: "engine \<Rightarrow> json \<Rightarrow> string option \<Rightarrow> error + jsval option" where
  "getIn g state path = getter g (toPath path) (Some (Data state))"

text \<open>
  Package \<^verbatim>\<open>dot-prop\<close> (used by the persistent store): \<^verbatim>\<open>getPathSegments\<close> splits at
  dots and joins a segment that ends in a backslash with its successor.
\<close>

function join_escaped :: "string list \<Rightarrow> string list" where
  "join_escaped [] = []"
| "join_escaped [p] = [p]"
| "join_escaped (p # q # rest) =
     (if p \<noteq> [] \<and> last p = CHR 0x5C
      then join_escaped ((butlast p @ ''.'' @ q) # rest)
      else p # join_escaped (q # rest))"
  by pat_completeness auto
termination
  by (relation "measure length") auto

definition getPathSegments :: "string \<Rightarrow> string list" where
  "getPathSegments path = join_escaped (split_dot path)"

text \<open>
  \<^verbatim>\<open>dotProp.get(obj, path)\<close> on an object \<open>obj\<close>: a missing path returns the object
  itself; a segment that is not an own enumerable property gives \<^verbatim>\<open>undefined\<close>; a
  \<^verbatim>\<open>null\<close> met before the last segment gives \<^verbatim>\<open>undefined\<close>.
\<close>

fun dp_get_segs :: "json \<Rightarrow> string list \<Rightarrow> json option" where
  "dp_get_segs obj [] = Some obj"
| "dp_get_segs obj (p # ps) =
     (case own_enum obj p of
        None \<Rightarrow> None
      | Some c \<Rightarrow> if c = JNull then (if ps = [] then Some JNull else None)
                  else dp_get_segs c ps)"

definition dp_get :: "json \<Rightarrow> string option \<Rightarrow> json option" where
  "dp_get obj path =
     (case path of None \<Rightarrow> Some obj | Some s \<Rightarrow> dp_get_segs obj (getPathSegments s))"

text \<open>
  \<^verbatim>\<open>dotProp.set(obj, path, value)\<close>, given as the document that results.  At every
  segment \<open>p\<close> it reads \<^verbatim>\<open>obj[p]\<close>; a value that is not an object (\<^verbatim>\<open>is-obj\<close>:
  objects, arrays, functions) is first replaced by \<^verbatim>\<open>{}\<close>; the last segment receives
  the value; the walk goes on in \<^verbatim>\<open>obj[p]\<close>.
  \<^item> When \<^verbatim>\<open>obj[p]\<close> is an inherited object or function, the walk leaves the document:
    what is set from there on is set on that value and not in the JSON file.
  \<^item> An assignment to \<^verbatim>\<open>__proto__\<close> runs a setter and creates no property.
  \<^item> On an array, an index beyond the end extends the array (the holes are
    \<^verbatim>\<open>null\<close> in the JSON file), assigning \<^verbatim>\<open>{}\<close> to \<^verbatim>\<open>length\<close> throws a
    RangeError, and any other property is not written to the JSON file.
\<close>

fun is_obj :: "json \<Rightarrow> bool" where
  "is_obj (JObj _) = True"
| "is_obj (JArr _) = True"
| "is_obj _ = False"

fun is_obj_val :: "jsval option \<Rightarrow> bool" where
  "is_obj_val (Some (Native n)) = True"
| "is_obj_val (Some (Data d)) = is_obj d"
| "is_obj_val None = False"

fun assign :: "json \<Rightarrow> string \<Rightarrow> json \<Rightarrow> json" where
  "assign (JObj kvs) p v =
     (if p = ''__proto__'' \<and> map_of kvs p = None then JObj kvs
      else JObj (AList.update p v kvs))"
| "assign (JArr xs) p v =
     (case array_index p of
        None \<Rightarrow> JArr xs
      | Some i \<Rightarrow> JArr (if i < length xs then xs[i := v]
                         else xs @ replicate (i - length xs) JNull @ [v]))"
| "assign obj p v = obj"

fun throws_on_length :: "json \<Rightarrow> string \<Rightarrow> bool" where
  "throws_on_length (JArr xs) p = (p = ''length'')"
| "throws_on_length _ p = False"

fun dp_set_segs :: "engine \<Rightarrow> json \<Rightarrow> string list \<Rightarrow> json \<Rightarrow> error + json" where
  "dp_set_segs g obj [] v = Inr obj"
| "dp_set_segs g obj (p # ps) v =
     (if throws_on_length obj p then Inl RangeError
      else (case own_prop obj p of
        Some c \<Rightarrow>
          if ps = [] then Inr (assign obj p v)
          else (case dp_set_segs g (if is_obj c then c else JObj []) ps v of
                  Inl err \<Rightarrow> Inl err
                | Inr c' \<Rightarrow> Inr (assign obj p c'))
      | None \<Rightarrow>
          (case inherited g (kind_of obj) p of
             Inl err \<Rightarrow> Inl err
           | Inr w \<Rightarrow>
               if ps = [] then Inr (assign obj p v)
               else if is_obj_val w
               then (case set_outside g (the w) ps v of
                       Some err \<Rightarrow> Inl err
                     | None \<Rightarrow> Inr obj)
               else (case dp_set_segs g (JObj []) ps v of
                       Inl err \<Rightarrow> Inl err
                     | Inr c' \<Rightarrow> Inr (assign obj p c')))))"

definition dp_set :: "engine \<Rightarrow> json \<Rightarrow> string \<Rightarrow> json \<Rightarrow> error + json" where
  "dp_set g obj path v = dp_set_segs g obj (getPathSegments path) v"

subsection \<open>Merging option objects\<close>

text \<open>
  Package \<^verbatim>\<open>merge-options\<close>.  An option object is a plain object.  \<^verbatim>\<open>clone\<close> copies
  a value deeply, which on values without identity is the value itself.  \<^verbatim>\<open>merge\<close>
  merges two option objects key by key (\<^verbatim>\<open>mergeKeys\<close>, over the own keys of the
  source) and otherwise returns the source.  \<^verbatim>\<open>mergeOptions\<close> skips undefined
  arguments and throws a TypeError on an argument that is not an option object.
\<close>

fun isOptionObject :: "json \<Rightarrow> bool" where
  "isOptionObject (JObj _) = True"
| "isOptionObject _ = False"

definition clone :: "json \<Rightarrow> json" where
  "clone v = v"

definition own_keys :: "(string \<times> json) list \<Rightarrow> string list" where
  "own_keys kvs = remdups (map fst kvs)"

function merge :: "json \<Rightarrow> json \<Rightarrow> json"
  and mergeKeys :: "(string \<times> json) list \<Rightarrow> (string \<times> json) list \<Rightarrow> string list
                    \<Rightarrow> (string \<times> json) list"
where
  "merge merged source =
     (case source of
        JObj s \<Rightarrow> (case merged of
                     JObj m \<Rightarrow> JObj (mergeKeys m s (own_keys s))
                   | _ \<Rightarrow> clone source)
      | _ \<Rightarrow> clone source)"
| "mergeKeys m s [] = m"
| "mergeKeys m s (key # keys) =
     (case map_of s key of
        None \<Rightarrow> mergeKeys m s keys
      | Some sv \<Rightarrow>
          mergeKeys
            (AList.update key
               (case map_of m key of Some mv \<Rightarrow> merge mv sv | None \<Rightarrow> clone sv) m)
            s keys)"
  by pat_completeness auto
termination
proof -
  have smaller: "map_of s k = Some v \<Longrightarrow> size v < Suc (size_list (size_prod (\<lambda>_. 0) size) s)"
    for s :: "(string \<times> json) list" and k v
    by (induction s) (auto split: if_splits)
  show ?thesis
    by (relation "measures
          [\<lambda>x. case x of Inl (m, s) \<Rightarrow> size s | Inr (m, s, ks) \<Rightarrow> size (JObj s),
           \<lambda>x. case x of Inl _ \<Rightarrow> 1 | Inr _ \<Rightarrow> 0,
           \<lambda>x. case x of Inl _ \<Rightarrow> 0 | Inr (m, s, ks) \<Rightarrow> length ks]")
       (auto dest: smaller)
qed

text \<open>
  An argument of \<^verbatim>\<open>mergeOptions\<close> that is a built-in value is an option object only
  if it is a plain object; it then contributes no key.
\<close>

fun mergeOptions_loop :: "engine \<Rightarrow> json \<Rightarrow> jsval option list \<Rightarrow> error + json" where
  "mergeOptions_loop g merged [] = Inr merged"
| "mergeOptions_loop g merged (option # options) =
     (case option of
        None \<Rightarrow> mergeOptions_loop g merged options
      | Some (Native n) \<Rightarrow>
          if \<not> plain_builtin g n then Inl TypeError
          else mergeOptions_loop g merged options
      | Some (Data opt) \<Rightarrow>
          if \<not> isOptionObject opt then Inl TypeError
          else mergeOptions_loop g (merge merged opt) options)"

definition mergeOptions :: "engine \<Rightarrow> jsval option list \<Rightarrow> error + json" where
  "mergeOptions g options = mergeOptions_loop g (JObj []) options"

subsection \<open>Loose deep equality\<close>

text \<open>
  \<^verbatim>\<open>assert.deepEqual\<close> in its legacy mode, as the store uses it to decide whether a
  value has changed: primitives are compared with \<^verbatim>\<open>==\<close> (so \<^verbatim>\<open>undefined\<close> equals
  \<^verbatim>\<open>null\<close>, and a number equals the string that converts to it), arrays element by
  element, objects key by key whatever the order of their keys.
\<close>

fun loose_eq :: "engine \<Rightarrow> json \<Rightarrow> json \<Rightarrow> bool" where
  "loose_eq g JNull JNull = True"
| "loose_eq g (JNum m) (JNum n) = (m = n)"
| "loose_eq g (JStr s) (JStr t) = (s = t)"
| "loose_eq g (JBool a) (JBool b) = (a = b)"
| "loose_eq g (JNum n) (JStr s) = (to_number g s = Some n)"
| "loose_eq g (JStr s) (JNum n) = (to_number g s = Some n)"
| "loose_eq g (JBool b) (JNum n) = ((if b then 1 else 0) = n)"
| "loose_eq g (JNum n) (JBool b) = ((if b then 1 else 0) = n)"
| "loose_eq g (JBool b) (JStr s) = (to_number g s = Some (if b then 1 else 0))"
| "loose_eq g (JStr s) (JBool b) = (to_number g s = Some (if b then 1 else 0))"
| "loose_eq g a b = False"

function deep_eq :: "engine \<Rightarrow> json \<Rightarrow> json \<Rightarrow> bool" where
  "deep_eq g a b =
     (case a of
        JArr xs \<Rightarrow> (case b of JArr ys \<Rightarrow> list_all2 (deep_eq g) xs ys | _ \<Rightarrow> False)
      | JObj kvs \<Rightarrow>
          (case b of
             JObj kws \<Rightarrow>
               set (own_keys kvs) = set (own_keys kws)
               \<and> list_all
                    (\<lambda>k. case map_of kvs k of
                           None \<Rightarrow> False
                         | Some v \<Rightarrow> (case map_of kws k of
                                        None \<Rightarrow> False
                                      | Some w \<Rightarrow> deep_eq g v w))
                    (own_keys kvs)
           | _ \<Rightarrow> False)
      | _ \<Rightarrow> (if is_obj b then False else loose_eq g a b))"
  by pat_completeness auto
termination
proof -
  have smaller: "map_of s k = Some v \<Longrightarrow> size v < Suc (size_list (size_prod (\<lambda>_. 0) size) s)"
    for s :: "(string \<times> json) list" and k v
    by (induction s) (auto split: if_splits)
  have elem: "x \<in> set xs \<Longrightarrow> size x < Suc (size_list size xs)" for x :: json and xs
    by (induction xs) auto
  show ?thesis
    by (relation "measure (\<lambda>(g, a, b). size a)") (auto dest: smaller elem)
qed

declare deep_eq.simps [simp del]

definition deepEqual :: "engine \<Rightarrow> json option \<Rightarrow> json option \<Rightarrow> bool" where
  "deepEqual g a b =
     (case a of
        None \<Rightarrow> (case b of None \<Rightarrow> True | Some w \<Rightarrow> w = JNull)
      | Some v \<Rightarrow> (case b of None \<Rightarrow> v = JNull | Some w \<Rightarrow> deep_eq g v w))"

section \<open>The configuration module\<close>

text \<open>
  The module \<^verbatim>\<open>config.js\<close> depends on values fixed at process start: the constant
  \<^verbatim>\<open>DEFAULTS\<close> (it contains fresh identifiers and a file-system path), the object
  that \<^verbatim>\<open>yargsParser(argv, PARSE_ARGS_OPTS)\<close> returns for the arguments of the
  process, and the engine.
\<close>

record env =
  DEFAULTS :: "(string \<times> json) list"
  parsed_argv :: "(string \<times> json) list"
  builtins :: engine

text \<open>
  An action carries a type and a payload \<^verbatim>\<open>{ path, value }\<close>.  The value of an update
  is a JSON value, or \<^verbatim>\<open>undefined\<close>, or a number that is not finite (\<^verbatim>\<open>NaN\<close>,
  \<^verbatim>\<open>Infinity\<close>), which a JSON file holds as \<^verbatim>\<open>null\<close>.
\<close>

datatype update_value = Undefined | NonFinite | Value json

record payload =
  payload_path :: string
  payload_value :: update_value

record action =
  action_type :: string
  action_payload :: payload

datatype log_level = Debug | Info

datatype log_message =
    Handling payload
  | InOverrides string
  | Updating string update_value

text \<open>
  The state of the process: the three lazily filled module variables, the JSON file of
  the store, the listeners registered with \<^verbatim>\<open>onDidChange\<close> (each with the value it
  last saw), and what the module did to its surroundings: calls of the argument parser,
  constructions of the store, log lines, dispatched actions and calls of change
  handlers (number of the listener, new value, old value).
\<close>

record state =
  store_cache :: bool
  over_cache :: "json option"
  log_cache :: bool
  disk :: "(string \<times> json) list"
  listeners :: "(string \<times> json option) list"
  parser_calls :: nat
  store_opens :: nat
  logs :: "(log_level \<times> log_message) list"
  sent :: "action list"
  handler_calls :: "(nat \<times> json option \<times> json option) list"

definition init :: "(string \<times> json) list \<Rightarrow> state" where
  "init file = \<lparr>store_cache = False, over_cache = None, log_cache = False, disk = file,
     listeners = [], parser_calls = 0, store_opens = 0, logs = [], sent = [],
     handler_calls = []\<rparr>"

subsection \<open>The persistent store (package electron-store)\<close>

text \<open>
  \<^verbatim>\<open>new Store({defaults})\<close> reads the file (an absent or unreadable file is the empty
  object), lays its top-level keys over the defaults with \<^verbatim>\<open>Object.assign\<close> and
  writes the result back.  A new store has no listeners.
\<close>

definition object_assign ::
  "(string \<times> json) list \<Rightarrow> (string \<times> json) list \<Rightarrow> (string \<times> json) list" where
  "object_assign target source =
     foldl (\<lambda>acc k. case map_of source k of None \<Rightarrow> acc | Some v \<Rightarrow> AList.update k v acc)
       target (own_keys source)"

definition new_Store :: "env \<Rightarrow> state \<Rightarrow> state" where
  "new_Store e st = st\<lparr>store_cache := True,
                        disk := object_assign (DEFAULTS e) (disk st),
                        listeners := [],
                        store_opens := Suc (store_opens st)\<rparr>"

text \<open>\<^verbatim>\<open>store.get(path)\<close> reads the file and follows the path.\<close>

definition Store_get :: "string option \<Rightarrow> state \<Rightarrow> json option" where
  "Store_get path st = dp_get (JObj (disk st)) path"

text \<open>
  Writing the file emits the \<^verbatim>\<open>change\<close> event.  Every \<^verbatim>\<open>onDidChange\<close> listener
  then compares the value now at its key with the value it last saw, and calls its
  handler only if the two are not deeply equal.
\<close>

fun notify ::
  "engine \<Rightarrow> (string \<times> json) list \<Rightarrow> nat \<Rightarrow> (string \<times> json option) list
   \<Rightarrow> (string \<times> json option) list \<times> (nat \<times> json option \<times> json option) list" where
  "notify g d i [] = ([], [])"
| "notify g d i ((key, currentValue) # ls) =
     (let newValue = dp_get (JObj d) (Some key);
          (ls', calls) = notify g d (Suc i) ls
      in if deepEqual g newValue currentValue then ((key, currentValue) # ls', calls)
         else ((key, newValue) # ls', (i, newValue, currentValue) # calls))"

definition emit_change :: "engine \<Rightarrow> state \<Rightarrow> state" where
  "emit_change g st =
     (let (ls, calls) = notify g (disk st) 0 (listeners st)
      in st\<lparr>listeners := ls, handler_calls := handler_calls st @ calls\<rparr>)"

fun obj_entries :: "json \<Rightarrow> (string \<times> json) list" where
  "obj_entries (JObj kvs) = kvs"
| "obj_entries _ = []"

text \<open>
  \<^verbatim>\<open>store.set(key, value)\<close> throws a TypeError for the value \<^verbatim>\<open>undefined\<close>
  (\<^verbatim>\<open>Use delete() to clear values\<close>).  Otherwise it reads the file, sets the value with
  \<^verbatim>\<open>dotProp.set\<close> and writes the file; nothing is written when \<^verbatim>\<open>dotProp.set\<close>
  throws.
\<close>

fun written :: "update_value \<Rightarrow> json option" where
  "written Undefined = None"
| "written NonFinite = Some JNull"
| "written (Value v) = Some v"

definition Store_set ::
  "engine \<Rightarrow> string \<Rightarrow> update_value \<Rightarrow> state \<Rightarrow> (error + unit) \<times> state" where
  "Store_set g key v st =
     (case written v of
        None \<Rightarrow> (Inl TypeError, st)
      | Some w \<Rightarrow>
          (case dp_set g (JObj (disk st)) key w of
             Inl err \<Rightarrow> (Inl err, st)
           | Inr d \<Rightarrow> (Inr (), emit_change g (st\<lparr>disk := obj_entries d\<rparr>))))"

definition Store_onDidChange :: "string \<Rightarrow> state \<Rightarrow> state" where
  "Store_onDidChange key st =
     st\<lparr>listeners := listeners st @ [(key, Store_get (Some key) st)]\<rparr>"

subsection \<open>Lazy accessors\<close>

text \<open>
  \<^verbatim>\<open>const store = () => _store || (_store = new Store({ defaults: DEFAULTS }))\<close> and
  \<^verbatim>\<open>const overrides = () => _over || (_over = yargsParser(argv, PARSE_ARGS_OPTS))\<close>.
  The parser returns an object, whatever the arguments.
\<close>

definition yargsParser :: "env \<Rightarrow> json" where
  "yargsParser e = JObj (parsed_argv e)"

definition store :: "env \<Rightarrow> state \<Rightarrow> state" where
  "store e st = (if store_cache st then st else new_Store e st)"

definition overrides :: "env \<Rightarrow> state \<Rightarrow> json \<times> state" where
  "overrides e st =
     (case over_cache st of
        Some t \<Rightarrow>
          if truthy (Some (Data t)) then (t, st)
          else (yargsParser e,
                st\<lparr>over_cache := Some (yargsParser e), parser_calls := Suc (parser_calls st)\<rparr>)
      | None \<Rightarrow>
          (yargsParser e,
           st\<lparr>over_cache := Some (yargsParser e), parser_calls := Suc (parser_calls st)\<rparr>))"

text \<open>
  Modelled from the spec: \<^verbatim>\<open>createLogger\<close> of \<^verbatim>\<open>./log\<close>, which is not among the
  sources.  The specification knows the logger as a lazily created sink whose lines are a
  side effect of their own (a log-level side effect only); so
  \<^verbatim>\<open>const log = () => _log || (_log = createLogger(__filename))\<close> fills \<^verbatim>\<open>_log\<close>, and
  a line written to the logger is recorded and touches nothing else.
\<close>

definition log :: "state \<Rightarrow> state" where
  "log st = (if log_cache st then st else st\<lparr>log_cache := True\<rparr>)"

definition log_write :: "log_level \<Rightarrow> log_message \<Rightarrow> state \<Rightarrow> state" where
  "log_write lvl msg st = (let st1 = log st in st1\<lparr>logs := logs st1 @ [(lvl, msg)]\<rparr>)"

subsection \<open>Exported functions\<close>

text \<open>
  The \<^verbatim>\<open>dispatch\<close> given to \<^verbatim>\<open>registerConfig\<close> sends an action to the front-end;
  \<open>send\<close> records it.  An exception leaves the handler at the point where it is thrown.
\<close>

definition send :: "action \<Rightarrow> state \<Rightarrow> state" where
  "send a st = st\<lparr>sent := sent st @ [a]\<rparr>"

definition registerConfig ::
  "(action \<Rightarrow> state \<Rightarrow> state) \<Rightarrow> env \<Rightarrow> action \<Rightarrow> state \<Rightarrow> (error + unit) \<times> state" where
  "registerConfig dispatch e action st =
     (if action_type action = ''config:UPDATE'' then
        (let payload = action_payload action;
             st1 = log_write Debug (Handling payload) st;
             (ov, st2) = overrides e st1
         in case getIn (builtins e) ov (Some (payload_path payload)) of
              Inl err \<Rightarrow> (Inl err, st2)
            | Inr over \<Rightarrow>
                if not_nullish over
                then (Inr (), log_write Info (InOverrides (payload_path payload)) st2)
                else
                  (let st3 = log_write Info
                               (Updating (payload_path payload) (payload_value payload)) st2
                   in case Store_set (builtins e) (payload_path payload)
                             (payload_value payload) (store e st3) of
                        (Inl err, st4) \<Rightarrow> (Inl err, st4)
                      | (Inr u, st4) \<Rightarrow>
                          (Inr (),
                           dispatch \<lparr>action_type = ''config:SET'',
                                     action_payload = payload\<rparr> st4)))
      else (Inr (), st))"

definition getStore :: "env \<Rightarrow> state \<Rightarrow> json \<times> state" where
  "getStore e st = (let st1 = store e st in (JObj (disk st1), st1))"

definition getOverrides ::
  "env \<Rightarrow> string option \<Rightarrow> state \<Rightarrow> (error + jsval option) \<times> state" where
  "getOverrides e path st =
     (let (ov, st1) = overrides e st in (getIn (builtins e) ov path, st1))"

definition getConfig ::
  "env \<Rightarrow> string option \<Rightarrow> state \<Rightarrow> (error + jsval option) \<times> state" where
  "getConfig e path st =
     (let st1 = store e st;
          result = Store_get path st1;
          (ov, st2) = overrides e st1
      in case getIn (builtins e) ov path of
           Inl err \<Rightarrow> (Inl err, st2)
         | Inr over \<Rightarrow>
             if not_nullish over then
               (if typeof_object result
                then (case mergeOptions (builtins e) [map_option Data result, over] of
                        Inl err \<Rightarrow> (Inl err, st2)
                      | Inr merged \<Rightarrow> (Inr (Some (Data merged)), st2))
                else (Inr over, st2))
             else (Inr (map_option Data result), st2))"

definition getFullConfig :: "env \<Rightarrow> state \<Rightarrow> (error + jsval option) \<times> state" where
  "getFullConfig e st = getConfig e None st"

definition handleConfigChange :: "env \<Rightarrow> string \<Rightarrow> state \<Rightarrow> state" where
  "handleConfigChange e path st = Store_onDidChange path (store e st)"

section \<open>Notions used in the statements\<close>


text \<open>\<^verbatim>\<open>getOverrides\<close> returned a value, and it is neither undefined nor null.\<close>

fun overridden :: "error + jsval option \<Rightarrow> bool" where
  "overridden (Inr v) = not_nullish v"
| "overridden (Inl err) = False"



text \<open>
  Following a list of keys through nested objects (own keys only), the invariant of
  configuration trees that the keys of every object are unique, and the document that
  the specification describes for the full read: each top-level default key resolved on
  its own with \<^verbatim>\<open>getConfig\<close>, the results put together.
\<close>

fun descend :: "json \<Rightarrow> string list \<Rightarrow> json option" where
  "descend v [] = Some v"
| "descend (JObj kvs) (k # ks) = (case map_of kvs k of None \<Rightarrow> None | Some c \<Rightarrow> descend c ks)"
| "descend v (k # ks) = None"

fun wf_json :: "json \<Rightarrow> bool" where
  "wf_json (JObj kvs) = (distinct (map fst kvs) \<and> (\<forall>v \<in> snd ` set kvs. wf_json v))"
| "wf_json (JArr xs) = (\<forall>x \<in> set xs. wf_json x)"
| "wf_json v = True"

definition resolve_each_default_key :: "env \<Rightarrow> state \<Rightarrow> (string \<times> json) list" where
  "resolve_each_default_key e st =
     List.map_filter
       (\<lambda>k. case fst (getConfig e (Some k) st) of
              Inr (Some (Data v)) \<Rightarrow> Some (k, v) | _ \<Rightarrow> None)
       (map fst (DEFAULTS e))"




text \<open>
  The calls that the rest of the application can make into the module, and a run of
  such calls from a state.  \<open>lazy_inv\<close> is the invariant of the lazy accessors: the
  parser has run exactly when the override cache is filled, and then the cache holds
  its result; the store has been constructed exactly when \<^verbatim>\<open>_store\<close> is set.
\<close>

datatype call =
    CallStore
  | CallOverrides
  | CallLog
  | GetStore
  | GetOverrides "string option"
  | GetConfig "string option"
  | GetFullConfig
  | HandleConfigChange string
  | Incoming action

fun step :: "env \<Rightarrow> call \<Rightarrow> state \<Rightarrow> state" where
  "step e CallStore st = store e st"
| "step e CallOverrides st = snd (overrides e st)"
| "step e CallLog st = log st"
| "step e GetStore st = snd (getStore e st)"
| "step e (GetOverrides p) st = snd (getOverrides e p st)"
| "step e (GetConfig p) st = snd (getConfig e p st)"
| "step e GetFullConfig st = snd (getFullConfig e st)"
| "step e (HandleConfigChange p) st = handleConfigChange e p st"
| "step e (Incoming a) st = snd (registerConfig send e a st)"

definition run :: "env \<Rightarrow> call list \<Rightarrow> state \<Rightarrow> state" where
  "run e cs st = foldl (\<lambda>s c. step e c s) st cs"

definition lazy_inv :: "env \<Rightarrow> state \<Rightarrow> bool" where
  "lazy_inv e st =
     ((over_cache st = None \<and> parser_calls st = 0
        \<or> over_cache st = Some (yargsParser e) \<and> parser_calls st = 1)
      \<and> store_opens st = (if store_cache st then 1 else 0))"

section \<open>Example data\<close>

text \<open>
  The engine of the examples knows the members of \<^verbatim>\<open>Object.prototype\<close>,
  \<^verbatim>\<open>Array.prototype\<close>, \<^verbatim>\<open>String.prototype\<close>, \<^verbatim>\<open>Number.prototype\<close> and
  \<^verbatim>\<open>Boolean.prototype\<close> by name; the examples read no property of a built-in value,
  and this engine gives them none.  It converts a string to a number only if the string
  is a canonical decimal numeral.
\<close>

definition object_names :: "string list" where
  "object_names =
     [''__defineGetter__'', ''__defineSetter__'', ''hasOwnProperty'', ''__lookupGetter__'',
      ''__lookupSetter__'', ''isPrototypeOf'', ''propertyIsEnumerable'', ''toString'',
      ''valueOf'', ''toLocaleString'']"

definition array_names :: "string list" where
  "array_names =
     [''concat'', ''copyWithin'', ''fill'', ''find'', ''findIndex'', ''lastIndexOf'', ''pop'',
      ''push'', ''reverse'', ''shift'', ''unshift'', ''slice'', ''sort'', ''splice'',
      ''includes'', ''indexOf'', ''join'', ''keys'', ''entries'', ''values'', ''forEach'',
      ''filter'', ''flat'', ''flatMap'', ''map'', ''every'', ''some'', ''reduce'',
      ''reduceRight'', ''toLocaleString'', ''toString'']"

definition string_names :: "string list" where
  "string_names =
     [''anchor'', ''big'', ''blink'', ''bold'', ''charAt'', ''charCodeAt'', ''codePointAt'',
      ''concat'', ''endsWith'', ''fontcolor'', ''fontsize'', ''fixed'', ''includes'',
      ''indexOf'', ''italics'', ''lastIndexOf'', ''link'', ''localeCompare'', ''match'',
      ''matchAll'', ''normalize'', ''padEnd'', ''padStart'', ''repeat'', ''replace'',
      ''search'', ''slice'', ''small'', ''split'', ''strike'', ''sub'', ''substr'',
      ''substring'', ''sup'', ''startsWith'', ''toString'', ''trim'', ''trimStart'',
      ''trimLeft'', ''trimEnd'', ''trimRight'', ''toLocaleLowerCase'',
      ''toLocaleUpperCase'', ''toLowerCase'', ''toUpperCase'', ''valueOf'']"

definition number_names :: "string list" where
  "number_names =
     [''toExponential'', ''toFixed'', ''toPrecision'', ''toString'', ''valueOf'',
      ''toLocaleString'']"

definition boolean_names :: "string list" where
  "boolean_names = [''toString'', ''valueOf'']"

definition member :: "string \<Rightarrow> string list \<Rightarrow> string \<Rightarrow> jsval option" where
  "member ctor names p =
     (if p = ''__proto__'' then Some (Native (ctor @ ''.prototype''))
      else if p = ''constructor'' then Some (Native ctor)
      else if p \<in> set names then Some (Native (ctor @ ''.prototype.'' @ p))
      else if p \<in> set object_names then Some (Native (''Object.prototype.'' @ p))
      else None)"

fun ex_inherited :: "kind \<Rightarrow> string \<Rightarrow> error + jsval option" where
  "ex_inherited KObject p = Inr (member ''Object'' [] p)"
| "ex_inherited KArray p = Inr (member ''Array'' array_names p)"
| "ex_inherited KString p = Inr (member ''String'' string_names p)"
| "ex_inherited KNumber p = Inr (member ''Number'' number_names p)"
| "ex_inherited KBoolean p = Inr (member ''Boolean'' boolean_names p)"
| "ex_inherited (KNative n) p = Inr None"

definition ex_engine :: engine where
  "ex_engine = \<lparr>inherited = ex_inherited,
                 set_outside = (\<lambda>w ps v. None),
                 plain_builtin = (\<lambda>n. n = ''Object.prototype''),
                 to_number = (\<lambda>s. map_option int (array_index s))\<rparr>"

text \<open>
  A small default document and the override trees of three command lines:
  \<^verbatim>\<open>--log.level.console=debug\<close>, \<^verbatim>\<open>--ui\<close>, and no option at all.
\<close>

definition ex_defaults :: "(string \<times> json) list" where
  "ex_defaults =
     [(''devtools'', JBool False),
      (''log'', JObj [(''level'', JObj [(''file'', JStr ''debug''), (''console'', JStr ''info'')])]),
      (''ui'', JObj [(''width'', JNum 1024), (''height'', JNum 768)]),
      (''discovery'', JObj [(''candidates'', JArr [])])]"

definition ex_env :: env where
  "ex_env = \<lparr>DEFAULTS = ex_defaults,
              parsed_argv = [(''_'', JArr []),
                             (''log'', JObj [(''level'', JObj [(''console'', JStr ''debug'')])])],
              builtins = ex_engine\<rparr>"

definition ex_env_flag :: env where
  "ex_env_flag = \<lparr>DEFAULTS = ex_defaults, parsed_argv = [(''_'', JArr []), (''ui'', JBool True)],
                   builtins = ex_engine\<rparr>"

definition ex_env_plain :: env where
  "ex_env_plain = \<lparr>DEFAULTS = ex_defaults, parsed_argv = [(''_'', JArr [])],
                    builtins = ex_engine\<rparr>"

definition update_action :: "string \<Rightarrow> json \<Rightarrow> action" where
  "update_action p v =
     \<lparr>action_type = ''config:UPDATE'',
      action_payload = \<lparr>payload_path = p, payload_value = Value v\<rparr>\<rparr>"

section \<open>Properties\<close>

subsection \<open>What the accessors leave alone\<close>

lemma log_write_frame [simp]:
  "disk (log_write l m st) = disk st"
  "sent (log_write l m st) = sent st"
  "listeners (log_write l m st) = listeners st"
  "handler_calls (log_write l m st) = handler_calls st"
  "store_cache (log_write l m st) = store_cache st"
  "store_opens (log_write l m st) = store_opens st"
  "over_cache (log_write l m st) = over_cache st"
  "parser_calls (log_write l m st) = parser_calls st"
  "logs (log_write l m st) = logs st @ [(l, m)]"
  by (simp_all add: log_write_def log_def Let_def)

lemma overrides_frame [simp]:
  "disk (snd (overrides e st)) = disk st"
  "sent (snd (overrides e st)) = sent st"
  "listeners (snd (overrides e st)) = listeners st"
  "handler_calls (snd (overrides e st)) = handler_calls st"
  "store_cache (snd (overrides e st)) = store_cache st"
  "store_opens (snd (overrides e st)) = store_opens st"
  "logs (snd (overrides e st)) = logs st"
  "log_cache (snd (overrides e st)) = log_cache st"
  by (simp_all add: overrides_def split: option.splits)

lemma overrides_log_write [simp]:
  "fst (overrides e (log_write l m st)) = fst (overrides e st)"
  by (simp add: overrides_def log_write_def log_def Let_def split: option.splits)

lemma fst_getOverrides:
  "fst (getOverrides e path st) = getIn (builtins e) (fst (overrides e st)) path"
  by (simp add: getOverrides_def case_prod_beta)

lemma store_frame [simp]:
  "over_cache (store e st) = over_cache st"
  "parser_calls (store e st) = parser_calls st"
  "sent (store e st) = sent st"
  "logs (store e st) = logs st"
  "handler_calls (store e st) = handler_calls st"
  "store_cache (store e st) = True"
  by (simp_all add: store_def new_Store_def)

lemma store_idem [simp]: "store e (store e st) = store e st"
  by (simp add: store_def new_Store_def)

lemma store_open [simp]: "store_cache st \<Longrightarrow> store e st = st"
  by (simp add: store_def)

lemma overrides_cong:
  "over_cache st = over_cache st' \<Longrightarrow> fst (overrides e st) = fst (overrides e st')"
  by (simp add: overrides_def split: option.splits)

lemma overrides_store [simp]: "fst (overrides e (store e st)) = fst (overrides e st)"
  by (rule overrides_cong) simp

lemma overrides_again [simp]:
  "fst (overrides e (snd (overrides e st))) = fst (overrides e st)"
  by (simp add: overrides_def yargsParser_def truthy_def split: option.splits)

lemma emit_change_frame [simp]:
  "disk (emit_change g st) = disk st"
  "sent (emit_change g st) = sent st"
  "logs (emit_change g st) = logs st"
  "over_cache (emit_change g st) = over_cache st"
  "parser_calls (emit_change g st) = parser_calls st"
  "store_cache (emit_change g st) = store_cache st"
  "store_opens (emit_change g st) = store_opens st"
  by (simp_all add: emit_change_def case_prod_beta)

lemma Store_set_frame [simp]:
  "sent (snd (Store_set g k v st)) = sent st"
  "logs (snd (Store_set g k v st)) = logs st"
  "over_cache (snd (Store_set g k v st)) = over_cache st"
  "parser_calls (snd (Store_set g k v st)) = parser_calls st"
  "store_cache (snd (Store_set g k v st)) = store_cache st"
  "store_opens (snd (Store_set g k v st)) = store_opens st"
  by (simp_all add: Store_set_def split: sum.splits option.splits)

lemma fst_overrides_Store_set [simp]:
  "fst (overrides e (snd (Store_set g k v st))) = fst (overrides e st)"
  by (rule overrides_cong) simp

lemma send_frame [simp]:
  "disk (send a st) = disk st"
  "sent (send a st) = sent st @ [a]"
  "logs (send a st) = logs st"
  "over_cache (send a st) = over_cache st"
  "parser_calls (send a st) = parser_calls st"
  "store_cache (send a st) = store_cache st"
  "store_opens (send a st) = store_opens st"
  "listeners (send a st) = listeners st"
  "handler_calls (send a st) = handler_calls st"
  by (simp_all add: send_def)

lemma fst_overrides_send [simp]: "fst (overrides e (send a st)) = fst (overrides e st)"
  by (rule overrides_cong) simp

subsection \<open>The update handler and the read path\<close>

lemma registerConfig_shadowed:
  assumes "action_type a = ''config:UPDATE''"
    and "getIn (builtins e) (fst (overrides e st)) (Some (payload_path (action_payload a))) = Inr over"
    and "not_nullish over"
  shows "registerConfig dispatch e a st =
           (Inr (), log_write Info (InOverrides (payload_path (action_payload a)))
                      (snd (overrides e (log_write Debug (Handling (action_payload a)) st))))"
  using assms by (simp add: registerConfig_def Let_def case_prod_beta)




lemma fst_getConfig:
  "fst (getConfig e path st) =
     (let result = Store_get path (store e st) in
      case getIn (builtins e) (fst (overrides e st)) path of
        Inl err \<Rightarrow> Inl err
      | Inr over \<Rightarrow>
          if not_nullish over then
            (if typeof_object result
             then (case mergeOptions (builtins e) [map_option Data result, over] of
                     Inl err \<Rightarrow> Inl err | Inr merged \<Rightarrow> Inr (Some (Data merged)))
             else Inr over)
          else Inr (map_option Data result))"
  by (simp add: getConfig_def Let_def case_prod_beta split: sum.splits)

lemma snd_getConfig: "snd (getConfig e path st) = snd (overrides e (store e st))"
  by (simp add: getConfig_def Let_def case_prod_beta split: sum.splits)

lemma fst_getStore [simp]: "fst (getStore e st) = JObj (disk (store e st))"
  by (simp add: getStore_def Let_def)

lemma getConfig_override_replaces:
  assumes "getIn (builtins e) (fst (overrides e st)) path = Inr (Some w)" and "w \<noteq> Data JNull"
    and "\<not> typeof_object (dp_get (fst (getStore e st)) path)"
  shows "fst (getConfig e path st) = Inr (Some w)"
  using assms
  by (simp add: fst_getConfig Let_def Store_get_def not_nullish_def split: json.splits jsval.splits)

lemma getter_None [simp]: "getter g ks None = Inr None"
  by (cases ks) simp_all



subsection \<open>Lazy initialisation\<close>

lemma lazy_inv_cong:
  "over_cache st' = over_cache st \<Longrightarrow> parser_calls st' = parser_calls st \<Longrightarrow>
   store_cache st' = store_cache st \<Longrightarrow> store_opens st' = store_opens st \<Longrightarrow>
   lazy_inv e st \<Longrightarrow> lazy_inv e st'"
  by (simp add: lazy_inv_def)

lemma lazy_inv_init: "lazy_inv e (init file)"
  by (simp add: lazy_inv_def init_def)

lemma lazy_inv_store: "lazy_inv e st \<Longrightarrow> lazy_inv e (store e st)"
  by (auto simp: lazy_inv_def store_def new_Store_def)

lemma lazy_inv_overrides: "lazy_inv e st \<Longrightarrow> lazy_inv e (snd (overrides e st))"
  by (auto simp: lazy_inv_def overrides_def yargsParser_def truthy_def)

lemma lazy_inv_log: "lazy_inv e st \<Longrightarrow> lazy_inv e (log st)"
  by (simp add: lazy_inv_def log_def)

lemma lazy_inv_log_write: "lazy_inv e st \<Longrightarrow> lazy_inv e (log_write l m st)"
  by (erule lazy_inv_cong [rotated -1]) simp_all

lemma lazy_inv_Store_set: "lazy_inv e st \<Longrightarrow> lazy_inv e (snd (Store_set g k v st))"
  by (erule lazy_inv_cong [rotated -1]) simp_all

lemma lazy_inv_send: "lazy_inv e st \<Longrightarrow> lazy_inv e (send a st)"
  by (erule lazy_inv_cong [rotated -1]) simp_all

lemma lazy_inv_onDidChange: "lazy_inv e st \<Longrightarrow> lazy_inv e (Store_onDidChange k st)"
  by (simp add: lazy_inv_def Store_onDidChange_def)

lemma lazy_inv_registerConfig:
  "lazy_inv e st \<Longrightarrow> lazy_inv e (snd (registerConfig send e a st))"
  by (simp add: registerConfig_def Let_def case_prod_beta lazy_inv_log_write lazy_inv_overrides
      lazy_inv_store lazy_inv_Store_set lazy_inv_send split: sum.splits)

lemma lazy_inv_step: "lazy_inv e st \<Longrightarrow> lazy_inv e (step e c st)"
  by (cases c)
     (simp_all add: lazy_inv_store lazy_inv_overrides lazy_inv_log getStore_def Let_def
        getOverrides_def case_prod_beta snd_getConfig getFullConfig_def handleConfigChange_def
        lazy_inv_onDidChange lazy_inv_registerConfig)

lemma lazy_inv_run: "lazy_inv e st \<Longrightarrow> lazy_inv e (run e cs st)"
  unfolding run_def by (induction cs arbitrary: st) (simp_all add: lazy_inv_step)

lemma lazy_inv_overrides_result: "lazy_inv e st \<Longrightarrow> fst (overrides e st) = yargsParser e"
  by (auto simp: lazy_inv_def overrides_def yargsParser_def truthy_def)

subsection \<open>Reading after writing, writing twice\<close>

lemma split_dot_nonempty [simp]: "split_dot s \<noteq> []"
  by (induction s) (auto split: list.splits)

lemma join_escaped_nonempty [simp]: "xs \<noteq> [] \<Longrightarrow> join_escaped xs \<noteq> []"
  by (induction xs rule: join_escaped.induct) auto

lemma getPathSegments_nonempty [simp]: "getPathSegments p \<noteq> []"
  by (simp add: getPathSegments_def)

lemma array_index_length [simp]: "array_index ''length'' = None"
  by (simp add: array_index_def is_digit_def)

lemma nth_opt_assign [simp]:
  "nth_opt (if i < length xs then xs[i := v] else xs @ replicate (i - length xs) JNull @ [v]) i
     = Some v"
  by (simp add: nth_opt_def nth_append)

lemma is_obj_assign [simp]: "is_obj obj \<Longrightarrow> is_obj (assign obj p v)"
  by (cases obj) (simp_all split: option.splits)

lemma isOptionObject_assign [simp]: "isOptionObject (assign obj p v) = isOptionObject obj"
  by (cases obj) (simp_all split: option.splits)

lemma throws_on_length_assign [simp]:
  "throws_on_length (assign obj p c) q = throws_on_length obj q"
  by (cases obj) (auto split: option.splits)

lemma kind_of_assign [simp]: "kind_of (assign obj p c) = kind_of obj"
  by (cases obj) (auto split: option.splits)

lemma assign_twice [simp]: "assign (assign obj p v) p w = assign obj p w"
  by (cases obj) (auto simp: list_update_append update_conv' split: option.splits)

lemma assign_effect:
  "is_obj obj \<Longrightarrow> \<not> throws_on_length obj p \<Longrightarrow>
   own_prop (assign obj p c) p = Some c \<and> own_enum (assign obj p c) p = Some c
   \<or> (assign obj p c = obj \<and> own_prop obj p = None \<and> (\<forall>w. assign obj p w = obj))"
  by (cases obj) (auto simp: update_Some_unfold split: option.splits)


lemma is_obj_dp_set_segs:
  "is_obj obj \<Longrightarrow> dp_set_segs g obj segs v = Inr d \<Longrightarrow> is_obj d"
  by (cases segs) (auto split: if_splits sum.splits option.splits)

lemma isOptionObject_dp_set_segs:
  "dp_set_segs g obj segs v = Inr d \<Longrightarrow> isOptionObject d = isOptionObject obj"
  by (cases segs) (auto split: if_splits sum.splits option.splits)




lemma dp_set_segs_idem:
  "is_obj obj \<Longrightarrow> dp_set_segs g obj segs v = Inr d \<Longrightarrow> dp_set_segs g d segs v = Inr d"
proof (induction segs arbitrary: obj d)
  case Nil
  then show ?case by simp
next
  case (Cons p ps)
  from Cons.prems have nt: "\<not> throws_on_length obj p" by (auto split: if_splits)
  have last_case: "dp_set_segs g (assign obj p x) (p # ps) v = Inr (assign obj p x)"
    if run: "dp_set_segs g obj (p # ps) v = Inr (assign obj p x)"
      and fx: "ps = [] \<and> x = v \<or> ps \<noteq> [] \<and> is_obj x \<and> dp_set_segs g x ps v = Inr x" for x
  proof -
    from assign_effect [OF Cons.prems(1) nt, of x] show ?thesis
    proof
      assume "own_prop (assign obj p x) p = Some x \<and> own_enum (assign obj p x) p = Some x"
      with nt fx show ?thesis by auto
    next
      assume "assign obj p x = obj \<and> own_prop obj p = None \<and> (\<forall>w. assign obj p w = obj)"
      with run show ?thesis by simp
    qed
  qed
  show ?case
  proof (cases "ps = []")
    case True
    with Cons.prems nt have d: "d = assign obj p v"
      by (auto split: option.splits sum.splits)
    with Cons.prems(2) True show ?thesis
      using last_case [of v] by simp
  next
    case False
    show ?thesis
    proof (cases "own_prop obj p")
      case (Some c)
      let ?child = "if is_obj c then c else JObj []"
      from Cons.prems nt False Some obtain c' where
        c': "dp_set_segs g ?child ps v = Inr c'" and d: "d = assign obj p c'"
        by (auto split: sum.splits)
      have oc: "is_obj ?child" by simp
      from is_obj_dp_set_segs [OF oc c'] have "is_obj c'" .
      moreover from Cons.IH [OF oc c'] have "dp_set_segs g c' ps v = Inr c'" .
      ultimately show ?thesis
        using last_case [of c'] Cons.prems(2) False d by simp
    next
      case None
      from Cons.prems nt None obtain w where w: "inherited g (kind_of obj) p = Inr w"
        by (auto split: sum.splits)
      show ?thesis
      proof (cases "is_obj_val w")
        case True
        with Cons.prems nt None w False have "d = obj"
          by (auto split: option.splits)
        with Cons.prems(2) show ?thesis by simp
      next
        case nf: False
        with Cons.prems nt None w False obtain c' where
          c': "dp_set_segs g (JObj []) ps v = Inr c'" and d: "d = assign obj p c'"
          by (auto split: sum.splits)
        have oc: "is_obj (JObj [])" by simp
        from is_obj_dp_set_segs [OF oc c'] have "is_obj c'" .
        moreover from Cons.IH [OF oc c'] have "dp_set_segs g c' ps v = Inr c'" .
        ultimately show ?thesis
          using last_case [of c'] Cons.prems(2) False d by simp
      qed
    qed
  qed
qed

lemma deep_eq_refl: "deep_eq g v v"
proof (induction v)
  case (JArr xs)
  then have "list_all2 (deep_eq g) xs xs" by (simp add: list_all2_same)
  then show ?case by (simp add: deep_eq.simps [of g "JArr xs"])
next
  case (JObj kvs)
  have "list_all (\<lambda>k. case map_of kvs k of None \<Rightarrow> False
                         | Some v \<Rightarrow> (case map_of kvs k of None \<Rightarrow> False
                                        | Some w \<Rightarrow> deep_eq g v w)) (own_keys kvs)"
    unfolding list_all_iff
  proof
    fix k assume "k \<in> set (own_keys kvs)"
    then have "map_of kvs k \<noteq> None"
      by (simp add: own_keys_def map_of_eq_None_iff)
    then obtain v where v: "map_of kvs k = Some v" by auto
    then have "(k, v) \<in> set kvs" by (rule map_of_SomeD)
    with JObj have "deep_eq g v v" by (auto simp: image_iff) 
    with v show "case map_of kvs k of None \<Rightarrow> False
                 | Some v \<Rightarrow> (case map_of kvs k of None \<Rightarrow> False | Some w \<Rightarrow> deep_eq g v w)"
      by simp
  qed
  then show ?case by (simp add: deep_eq.simps [of g "JObj kvs"])
qed (simp_all add: deep_eq.simps)

lemma deepEqual_refl [simp]: "deepEqual g v v"
  by (cases v) (simp_all add: deepEqual_def deep_eq_refl)

lemma notify_settled:
  "notify g d i (fst (notify g d i ls)) = (fst (notify g d i ls), [])"
  by (induction ls arbitrary: i) (auto simp: case_prod_beta Let_def)

lemma emit_change_twice [simp]: "emit_change g (emit_change g st) = emit_change g st"
  by (simp add: emit_change_def case_prod_beta notify_settled)

lemma disk_update_same: "disk st = d \<Longrightarrow> st\<lparr>disk := d\<rparr> = st"
  by auto

lemma Store_set_twice:
  "Store_set g p v (snd (Store_set g p v st)) = (fst (Store_set g p v st), snd (Store_set g p v st))"
proof (cases "written v")
  case None
  then show ?thesis by (simp add: Store_set_def)
next
  case (Some w)
  show ?thesis
  proof (cases "dp_set g (JObj (disk st)) p w")
    case (Inl err)
    with Some show ?thesis by (simp add: Store_set_def)
  next
    case (Inr d)
    then have "isOptionObject d"
      by (auto simp: dp_set_def dest: isOptionObject_dp_set_segs)
    then obtain d' where d': "d = JObj d'" by (cases d) auto
    from Inr have "dp_set g d p w = Inr d"
      unfolding dp_set_def by (rule dp_set_segs_idem [rotated]) simp
    with Inr d' Some show ?thesis
      by (simp add: Store_set_def disk_update_same)
  qed
qed

subsection \<open>Merging\<close>

lemma merge_obj: "merge (JObj m) (JObj s) = JObj (mergeKeys m s (own_keys s))"
  by simp

lemma merge_other: "\<not> isOptionObject m \<or> \<not> isOptionObject s \<Longrightarrow> merge m s = s"
  by (cases s; cases m) (simp_all add: clone_def)

declare merge.simps [simp del]

lemma map_of_mergeKeys:
  "distinct ks \<Longrightarrow>
   map_of (mergeKeys m s ks) k =
     (if k \<in> set ks then
        (case map_of s k of
           None \<Rightarrow> map_of m k
         | Some sv \<Rightarrow> Some (case map_of m k of Some mv \<Rightarrow> merge mv sv | None \<Rightarrow> sv))
      else map_of m k)"
proof (induction ks arbitrary: m)
  case Nil
  then show ?case by simp
next
  case (Cons key keys)
  then show ?case
    by (auto simp: update_conv' clone_def split: option.splits)
qed

lemma in_own_keys: "k \<in> set (own_keys s) \<longleftrightarrow> map_of s k \<noteq> None"
  by (simp add: own_keys_def map_of_eq_None_iff)

lemma lookup_merged:
  "map_of (mergeKeys m s (own_keys s)) k =
     (case map_of s k of
        None \<Rightarrow> map_of m k
      | Some sv \<Rightarrow> Some (case map_of m k of Some mv \<Rightarrow> merge mv sv | None \<Rightarrow> sv))"
  using map_of_mergeKeys [of "own_keys s" m s k] in_own_keys [of k s]
  by (auto simp: own_keys_def split: option.splits)

lemma lookup_copy [simp]: "map_of (mergeKeys [] s (own_keys s)) k = map_of s k"
  by (simp add: lookup_merged split: option.splits)

lemma descend_snoc:
  "descend v (ks @ [k]) = (case descend v ks of Some (JObj kvs) \<Rightarrow> map_of kvs k | _ \<Rightarrow> None)"
  by (induction v ks rule: descend.induct) (auto split: option.splits json.splits)

lemma descend_merge_both:
  "descend m ks = Some (JObj a) \<Longrightarrow> descend s ks = Some (JObj b) \<Longrightarrow>
   descend (merge m s) ks = Some (JObj (mergeKeys a b (own_keys b)))"
proof (induction ks arbitrary: m s)
  case Nil
  then show ?case by (simp add: merge_obj)
next
  case (Cons k ks)
  from Cons.prems obtain mm ss where ms: "m = JObj mm" "s = JObj ss"
    by (cases m; cases s) auto
  with Cons.prems obtain mc sc where c: "map_of mm k = Some mc" "map_of ss k = Some sc"
    "descend mc ks = Some (JObj a)" "descend sc ks = Some (JObj b)"
    by (auto split: option.splits)
  from Cons.IH [OF c(3) c(4)] ms c show ?case
    by (simp add: merge_obj lookup_merged)
qed

lemma descend_merge_leaf:
  "descend s ks = Some w \<Longrightarrow> \<not> isOptionObject w \<Longrightarrow> descend (merge m s) ks = Some w"
proof (induction ks arbitrary: m s)
  case Nil
  then show ?case by (simp add: merge_other)
next
  case (Cons k ks)
  from Cons.prems obtain ss sc where s: "s = JObj ss" "map_of ss k = Some sc" "descend sc ks = Some w"
    by (cases s) (auto split: option.splits)
  show ?case
  proof (cases "isOptionObject m")
    case True
    then obtain mm where "m = JObj mm" by (cases m) auto
    with s Cons.IH [OF s(3) Cons.prems(2)] show ?thesis
      by (auto simp: merge_obj lookup_merged split: option.splits)
  next
    case False
    with Cons.prems show ?thesis by (simp add: merge_other)
  qed
qed

lemma mergeOptions_two:
  "mergeOptions g [Some (Data (JObj a)), Some (Data (JObj b))] =
     Inr (JObj (mergeKeys (mergeKeys [] a (own_keys a)) b (own_keys b)))"
  by (simp add: mergeOptions_def merge_obj)

lemma update_fresh: "k \<notin> fst ` set al \<Longrightarrow> AList.update k v al = al @ [(k, v)]"
  by (induction al) auto

lemma mergeKeys_copy_rest:
  "distinct (map fst (pre @ rest)) \<Longrightarrow>
   mergeKeys pre (pre @ rest) (map fst rest) = pre @ rest"
proof (induction rest arbitrary: pre)
  case Nil
  then show ?case by simp
next
  case (Cons kv rest)
  obtain k v where kv: "kv = (k, v)" by (cases kv)
  from Cons.prems kv have fresh: "k \<notin> fst ` set pre" by auto
  then have m: "map_of pre k = None" by (simp add: map_of_eq_None_iff)
  with kv have l: "map_of (pre @ kv # rest) k = Some v" by (simp add: map_add_def)
  from Cons.IH [of "pre @ [kv]"] Cons.prems
  have "mergeKeys (pre @ [kv]) (pre @ kv # rest) (map fst rest) = pre @ kv # rest"
    by simp
  with l m fresh kv show ?case
    by (simp add: update_fresh clone_def)
qed

lemma mergeKeys_copy: "distinct (map fst a) \<Longrightarrow> mergeKeys [] a (own_keys a) = a"
  using mergeKeys_copy_rest [of "[]" a] by (simp add: own_keys_def distinct_remdups_id)

lemma split_dot_plain: "CHR ''.'' \<notin> set k \<Longrightarrow> split_dot k = [k]"
  by (induction k) auto

lemma wf_json_entry:
  "wf_json (JObj d) \<Longrightarrow> map_of d k = Some (JObj a) \<Longrightarrow> distinct (map fst a)"
  by (force dest: map_of_SomeD)

lemma keys_merged:
  "fst ` set (mergeKeys m s (own_keys s)) = fst ` set m \<union> fst ` set s"
proof -
  have "dom (map_of (mergeKeys m s (own_keys s))) = dom (map_of m) \<union> dom (map_of s)"
    by (auto simp: lookup_merged dom_def split: option.splits)
  then show ?thesis by (simp add: dom_map_of_conv_image_fst)
qed

lemma dp_get_plain_key:
  "k \<noteq> [] \<Longrightarrow> CHR ''.'' \<notin> set k \<Longrightarrow> dp_get (JObj d) (Some k) = map_of d k"
  by (simp add: dp_get_def getPathSegments_def split_dot_plain split: option.splits)

lemma getIn_plain_key:
  "k \<noteq> [] \<Longrightarrow> CHR ''.'' \<notin> set k \<Longrightarrow>
   getIn g (JObj oo) (Some k) =
     (case map_of oo k of Some x \<Rightarrow> Inr (Some (Data x)) | None \<Rightarrow> inherited g KObject k)"
  by (simp add: getIn_def toPath_def split_dot_plain truthy_def split: option.splits sum.splits)

lemma getIn_root [simp]: "getIn g t None = Inr (Some (Data t))"
  by (simp add: getIn_def toPath_def)

subsection \<open>The examples evaluated\<close>

text \<open>
  Updates of the example documents at paths that name inherited properties, updates
  with values that are no JSON values, and writes of values loosely equal to the ones
  they replace.
\<close>

lemma ex_update_of_inherited_name_is_turned_away:
  "snd (last (logs (snd (registerConfig send ex_env_plain (update_action ''constructor'' (JNum 1))
                           (init ex_defaults)))))
     = InOverrides ''constructor''
   \<and> snd (last (logs (snd (registerConfig send ex_env_flag (update_action ''ui.toString'' (JNum 1))
                           (init ex_defaults)))))
     = InOverrides ''ui.toString''"
  by code_simp

lemma ex_update_below_empty_string_is_accepted:
  "sent (snd (registerConfig send
            \<lparr>DEFAULTS = ex_defaults, parsed_argv = [(''_'', JArr []), (''name'', JStr [])],
             builtins = ex_engine\<rparr>
            (update_action ''name.length'' (JNum 1)) (init ex_defaults)))
     = [\<lparr>action_type = ''config:SET'',
         action_payload = \<lparr>payload_path = ''name.length'', payload_value = Value (JNum 1)\<rparr>\<rparr>]"
  by code_simp

lemma ex_update_through_inherited_object_leaves_file:
  "fst (registerConfig send ex_env_plain (update_action ''ui.constructor.x'' (JNum 1))
          (init ex_defaults)) = Inr ()
   \<and> disk (snd (registerConfig send ex_env_plain (update_action ''ui.constructor.x'' (JNum 1))
                   (init ex_defaults))) = ex_defaults
   \<and> sent (snd (registerConfig send ex_env_plain (update_action ''ui.constructor.x'' (JNum 1))
                   (init ex_defaults)))
     = [\<lparr>action_type = ''config:SET'',
         action_payload = \<lparr>payload_path = ''ui.constructor.x'', payload_value = Value (JNum 1)\<rparr>\<rparr>]"
  by code_simp

lemma ex_update_with_undefined_throws:
  "registerConfig send ex_env_plain
      \<lparr>action_type = ''config:UPDATE'',
       action_payload = \<lparr>payload_path = ''ui.width'', payload_value = Undefined\<rparr>\<rparr>
      (init ex_defaults)
   = (Inl TypeError,
      store ex_env_plain
        (log_write Info (Updating ''ui.width'' Undefined)
           (snd (overrides ex_env_plain
              (log_write Debug (Handling \<lparr>payload_path = ''ui.width'', payload_value = Undefined\<rparr>)
                 (init ex_defaults))))))"
  by code_simp

lemma ex_update_with_non_finite_number_stores_null:
  "map_of (disk (snd (registerConfig send ex_env_plain
      \<lparr>action_type = ''config:UPDATE'',
       action_payload = \<lparr>payload_path = ''ui.width'', payload_value = NonFinite\<rparr>\<rparr>
      (init ex_defaults)))) ''ui''
   = Some (JObj [(''width'', JNull), (''height'', JNum 768)])"
  by code_simp

lemma ex_null_for_missing_does_not_notify:
  "handler_calls (snd (Store_set ex_engine ''ui.depth'' (Value JNull)
      (handleConfigChange ex_env_plain ''ui.depth'' (init ex_defaults)))) = []"
  by code_simp

lemma ex_array_index: "array_index ''1024'' = Some 1024"
  by (simp add: array_index_def is_digit_def decimal_def digit_val_def)

lemma ex_loosely_equal_value_does_not_notify:
  "handler_calls (snd (Store_set ex_engine ''ui.width'' (Value (JStr ''1024''))
      (handleConfigChange ex_env_plain ''ui.width'' (init ex_defaults)))) = []"
proof -
  have s: "disk (handleConfigChange ex_env_plain ''ui.width'' (init ex_defaults)) = ex_defaults"
    "listeners (handleConfigChange ex_env_plain ''ui.width'' (init ex_defaults))
       = [(''ui.width'', Some (JNum 1024))]"
    "handler_calls (handleConfigChange ex_env_plain ''ui.width'' (init ex_defaults)) = []"
    by code_simp+
  have d: "dp_set ex_engine (JObj ex_defaults) ''ui.width'' (JStr ''1024'')
      = Inr (JObj [(''devtools'', JBool False),
      (''log'', JObj [(''level'', JObj [(''file'', JStr ''debug''), (''console'', JStr ''info'')])]),
      (''ui'', JObj [(''width'', JStr ''1024''), (''height'', JNum 768)]),
      (''discovery'', JObj [(''candidates'', JArr [])])])"
    by code_simp
  have g: "dp_get (JObj [(''devtools'', JBool False),
      (''log'', JObj [(''level'', JObj [(''file'', JStr ''debug''), (''console'', JStr ''info'')])]),
      (''ui'', JObj [(''width'', JStr ''1024''), (''height'', JNum 768)]),
      (''discovery'', JObj [(''candidates'', JArr [])])]) (Some ''ui.width'') = Some (JStr ''1024'')"
    by code_simp
  have e: "deepEqual ex_engine (Some (JStr ''1024'')) (Some (JNum 1024))"
    by (simp add: deepEqual_def deep_eq.simps ex_engine_def ex_array_index)
  show ?thesis
    by (simp add: Store_set_def s d emit_change_def g e)
qed

subsection \<open>Claims\<close>

text \<open>
  C2.  An inbound \<^verbatim>\<open>config:UPDATE\<close> whose path has an override value (neither undefined
  nor null) leaves the persisted document unchanged and dispatches nothing, whatever the
  dispatch function is: the handler only writes two log lines (and, on first use, fills
  the override cache and creates the logger).
\<close>

theorem C2_shadowed_update_leaves_store:
  assumes "action_type a = ''config:UPDATE''"
    and "overridden (fst (getOverrides e (Some (payload_path (action_payload a))) st))"
  shows "registerConfig dispatch e a st =
           (Inr (), log_write Info (InOverrides (payload_path (action_payload a)))
                      (snd (overrides e (log_write Debug (Handling (action_payload a)) st))))
       \<and> disk (snd (registerConfig dispatch e a st)) = disk st
       \<and> sent (snd (registerConfig dispatch e a st)) = sent st
       \<and> store_cache (snd (registerConfig dispatch e a st)) = store_cache st
       \<and> store_opens (snd (registerConfig dispatch e a st)) = store_opens st
       \<and> listeners (snd (registerConfig dispatch e a st)) = listeners st
       \<and> handler_calls (snd (registerConfig dispatch e a st)) = handler_calls st
       \<and> logs (snd (registerConfig dispatch e a st)) =
           logs st @ [(Debug, Handling (action_payload a)),
                      (Info, InOverrides (payload_path (action_payload a)))]"
proof -
  from assms(2) obtain over where
    "getIn (builtins e) (fst (overrides e st)) (Some (payload_path (action_payload a))) = Inr over"
    "not_nullish over"
    by (cases "fst (getOverrides e (Some (payload_path (action_payload a))) st)")
       (simp_all add: fst_getOverrides)
  with assms(1) show ?thesis by (simp add: registerConfig_shadowed)
qed

theorem C2_shadowed_update_leaves_store_witness:
  "action_type (update_action ''log.level.console'' (JStr ''silly'')) = ''config:UPDATE''
   \<and> overridden (fst (getOverrides ex_env
         (Some (payload_path (action_payload (update_action ''log.level.console'' (JStr ''silly'')))))
         (init ex_defaults)))
   \<and> disk (snd (registerConfig send ex_env
         (update_action ''log.level.console'' (JStr ''silly'')) (init ex_defaults))) = ex_defaults
   \<and> sent (snd (registerConfig send ex_env
         (update_action ''log.level.console'' (JStr ''silly'')) (init ex_defaults))) = []"
proof -
  have t: "action_type (update_action ''log.level.console'' (JStr ''silly'')) = ''config:UPDATE''"
    by (simp add: update_action_def)
  have h: "overridden (fst (getOverrides ex_env
         (Some (payload_path (action_payload (update_action ''log.level.console'' (JStr ''silly'')))))
         (init ex_defaults)))"
    by code_simp
  from C2_shadowed_update_leaves_store [OF t h, of send] t h
  show ?thesis by (simp add: init_def)
qed

text \<open>
  C10.  For an inbound action of any other type the handler returns at once with the
  state as it was: nothing is read, written, dispatched or logged, and no lazy value is
  created.
\<close>

theorem C10_other_action_noop:
  "action_type a \<noteq> ''config:UPDATE'' \<Longrightarrow> registerConfig dispatch e a st = (Inr (), st)"
  by (simp add: registerConfig_def)

theorem C10_other_action_noop_witness:
  "action_type \<lparr>action_type = ''discovery:START'', action_payload =
        \<lparr>payload_path = ''ui.width'', payload_value = Value (JNum 800)\<rparr>\<rparr> \<noteq> ''config:UPDATE''
   \<and> registerConfig send ex_env
        \<lparr>action_type = ''discovery:START'', action_payload =
           \<lparr>payload_path = ''ui.width'', payload_value = Value (JNum 800)\<rparr>\<rparr> (init ex_defaults)
       = (Inr (), init ex_defaults)"
  using C10_other_action_noop [of "\<lparr>action_type = ''discovery:START'', action_payload =
        \<lparr>payload_path = ''ui.width'', payload_value = Value (JNum 800)\<rparr>\<rparr>" send ex_env "init ex_defaults"]
  by simp




text \<open>
  C4 (the code departs from the claim).  With the command line \<^verbatim>\<open>--ui\<close> the override
  tree holds the scalar \<^verbatim>\<open>true\<close> at \<^verbatim>\<open>ui\<close>, where the stored document holds an object.
  \<^verbatim>\<open>getConfig('ui')\<close> then passes the scalar to \<^verbatim>\<open>mergeOptions\<close>, which throws a
  TypeError, while the read of the whole document returns \<^verbatim>\<open>true\<close> at \<^verbatim>\<open>ui\<close>.
\<close>

theorem C4_scalar_override_on_stored_object_throws:
  "fst (getOverrides ex_env_flag (Some ''ui'') (init ex_defaults)) = Inr (Some (Data (JBool True)))
   \<and> dp_get (fst (getStore ex_env_flag (init ex_defaults))) (Some ''ui'')
       = Some (JObj [(''width'', JNum 1024), (''height'', JNum 768)])
   \<and> fst (getConfig ex_env_flag (Some ''ui'') (init ex_defaults)) = Inl TypeError
   \<and> fst (getFullConfig ex_env_flag (init ex_defaults)) =
       Inr (Some (Data (JObj [(''devtools'', JBool False),
          (''log'', JObj [(''level'', JObj [(''file'', JStr ''debug''), (''console'', JStr ''info'')])]),
          (''ui'', JBool True),
          (''discovery'', JObj [(''candidates'', JArr [])]),
          (''_'', JArr [])])))"
  by code_simp




text \<open>
  C7.  In every run of calls into the module from the initial state, the argument parser
  has been invoked at most once (exactly once as soon as the override cache is filled),
  every call of the \<^verbatim>\<open>overrides\<close> accessor returns the tree of that one invocation, and
  the store has been constructed and seeded at most once (exactly once as soon as
  \<^verbatim>\<open>_store\<close> is set).
\<close>

theorem C7_lazy_values_created_once:
  "parser_calls (run e cs (init file)) \<le> 1
   \<and> parser_calls (run e cs (init file)) = (if over_cache (run e cs (init file)) = None then 0 else 1)
   \<and> fst (overrides e (run e cs (init file))) = yargsParser e
   \<and> parser_calls (snd (overrides e (run e cs (init file)))) = 1
   \<and> store_opens (run e cs (init file)) \<le> 1
   \<and> store_opens (run e cs (init file)) = (if store_cache (run e cs (init file)) then 1 else 0)
   \<and> store_opens (store e (run e cs (init file))) = 1"
proof -
  have i: "lazy_inv e (run e cs (init file))"
    by (rule lazy_inv_run) (rule lazy_inv_init)
  then have o: "lazy_inv e (snd (overrides e (run e cs (init file))))"
    and s: "lazy_inv e (store e (run e cs (init file)))"
    by (simp_all add: lazy_inv_overrides lazy_inv_store)
  have "over_cache (snd (overrides e st)) \<noteq> None" for st
    by (simp add: overrides_def yargsParser_def truthy_def split: option.splits)
  with i o s show ?thesis
    by (auto simp: lazy_inv_overrides_result lazy_inv_def)
qed




text \<open>
  C8 (as amended).  After a change handler has been registered with
  \<^verbatim>\<open>handleConfigChange\<close>, a second \<^verbatim>\<open>set\<close> of the same value at the same path changes
  nothing: the persisted document is the one the first call left, and no change handler
  is called again.
\<close>

theorem C8_second_set_changes_nothing:
  "(let s0 = handleConfigChange e p st;
        s1 = snd (Store_set (builtins e) p v s0);
        s2 = snd (Store_set (builtins e) p v s1)
    in disk s2 = disk s1 \<and> handler_calls s2 = handler_calls s1 \<and> s2 = s1)"
  by (simp add: Let_def Store_set_twice)

text \<open>
  C8 (as stated) fails: the handler registered for \<^verbatim>\<open>ui.width\<close> is called by the first
  \<^verbatim>\<open>set('ui.width', 800)\<close> (new value 800, old value 1024) and not by the second.
\<close>

theorem C8_second_set_counterexample:
  "handler_calls (handleConfigChange ex_env_plain ''ui.width'' (init ex_defaults)) = []
   \<and> handler_calls (snd (Store_set (builtins ex_env_plain) ''ui.width'' (Value (JNum 800))
         (handleConfigChange ex_env_plain ''ui.width'' (init ex_defaults))))
       = [(0, Some (JNum 800), Some (JNum 1024))]
   \<and> handler_calls (snd (Store_set (builtins ex_env_plain) ''ui.width'' (Value (JNum 800))
         (snd (Store_set (builtins ex_env_plain) ''ui.width'' (Value (JNum 800))
            (handleConfigChange ex_env_plain ''ui.width'' (init ex_defaults))))))
       = [(0, Some (JNum 800), Some (JNum 1024))]"
  by code_simp

text \<open>
  C1.  Where the persisted document and the override tree both hold an object at a path,
  \<^verbatim>\<open>getConfig\<close> returns an object \<open>r\<close> such that: a key absent from the override
  object has the stored value; a key of the override object has the override's value,
  merged in the same way with the stored value when both are objects; and the same holds
  at every depth: below any path at which both hold objects, a key that only the stored
  object has keeps its stored value, and every value of the override tree that is not an
  object is found in \<open>r\<close> at its place.
\<close>

theorem C1_objects_are_merged_key_by_key:
  assumes "dp_get (fst (getStore e st)) path = Some (JObj so)"
    and "fst (getOverrides e path st) = Inr (Some (Data (JObj oo)))"
  shows "\<exists>r. fst (getConfig e path st) = Inr (Some (Data (JObj r)))
       \<and> (\<forall>k. map_of oo k = None \<longrightarrow> map_of r k = map_of so k)
       \<and> (\<forall>k w. map_of oo k = Some w \<longrightarrow>
             map_of r k = Some (case map_of so k of
                                  None \<Rightarrow> w
                                | Some sv \<Rightarrow> if isOptionObject sv \<and> isOptionObject w
                                             then merge sv w else w))
       \<and> (\<forall>ks k so' oo'.
             descend (JObj so) ks = Some (JObj so') \<and> descend (JObj oo) ks = Some (JObj oo')
             \<and> map_of oo' k = None
             \<longrightarrow> descend (JObj r) (ks @ [k]) = map_of so' k)
       \<and> (\<forall>ks w. descend (JObj oo) ks = Some w \<and> \<not> isOptionObject w
             \<longrightarrow> descend (JObj r) ks = Some w)"
proof -
  let ?c = "mergeKeys [] so (own_keys so)"
  let ?r = "mergeKeys ?c oo (own_keys oo)"
  have g: "fst (getConfig e path st) = Inr (Some (Data (JObj ?r)))"
    using assms
    by (simp add: fst_getConfig fst_getOverrides Store_get_def Let_def not_nullish_def
        typeof_object_def mergeOptions_two)
  have r: "JObj ?r = merge (JObj ?c) (JObj oo)" by (simp add: merge_obj)
  have one: "map_of oo k = None \<Longrightarrow> map_of ?r k = map_of so k" for k
    by (simp add: lookup_merged split: option.splits)
  have two: "map_of ?r k = Some (case map_of so k of
                                  None \<Rightarrow> w
                                | Some sv \<Rightarrow> if isOptionObject sv \<and> isOptionObject w
                                             then merge sv w else w)"
    if "map_of oo k = Some w" for k w
    using that by (auto simp: lookup_merged merge_other split: option.splits)
  have three: "descend (JObj ?r) (ks @ [k]) = map_of so' k"
    if h: "descend (JObj so) ks = Some (JObj so')" "descend (JObj oo) ks = Some (JObj oo')"
      "map_of oo' k = None" for ks k so' oo'
  proof (cases ks)
    case Nil
    with h one [of k] show ?thesis by (simp split: option.splits)
  next
    case (Cons k0 ks0)
    with h(1) have "descend (JObj ?c) ks = Some (JObj so')"
      by simp
    from descend_merge_both [OF this h(2)] h(3) show ?thesis
      by (simp add: r descend_snoc lookup_merged split: option.splits)
  qed
  have four: "descend (JObj ?r) ks = Some w"
    if "descend (JObj oo) ks = Some w" "\<not> isOptionObject w" for ks w
    unfolding r using that by (rule descend_merge_leaf)
  from g one two three four show ?thesis by blast
qed

theorem C1_objects_are_merged_key_by_key_witness:
  "dp_get (fst (getStore ex_env (init ex_defaults))) (Some ''log'')
     = Some (JObj [(''level'', JObj [(''file'', JStr ''debug''), (''console'', JStr ''info'')])])
   \<and> fst (getOverrides ex_env (Some ''log'') (init ex_defaults))
     = Inr (Some (Data (JObj [(''level'', JObj [(''console'', JStr ''debug'')])])))
   \<and> (\<exists>r. fst (getConfig ex_env (Some ''log'') (init ex_defaults)) = Inr (Some (Data (JObj r)))
          \<and> descend (JObj r) ([''level''] @ [''file'']) = Some (JStr ''debug'')
          \<and> descend (JObj r) [''level'', ''console''] = Some (JStr ''debug''))"
proof -
  let ?so = "[(''level'', JObj [(''file'', JStr ''debug''), (''console'', JStr ''info'')])]"
  let ?oo = "[(''level'', JObj [(''console'', JStr ''debug'')])]"
  have s: "dp_get (fst (getStore ex_env (init ex_defaults))) (Some ''log'') = Some (JObj ?so)"
    by code_simp
  have ov: "fst (getOverrides ex_env (Some ''log'') (init ex_defaults)) = Inr (Some (Data (JObj ?oo)))"
    by code_simp
  from C1_objects_are_merged_key_by_key [OF s ov] obtain r where
    r: "fst (getConfig ex_env (Some ''log'') (init ex_defaults)) = Inr (Some (Data (JObj r)))"
    and keep: "\<And>ks k so' oo'.
             descend (JObj ?so) ks = Some (JObj so') \<and> descend (JObj ?oo) ks = Some (JObj oo')
             \<and> map_of oo' k = None
             \<Longrightarrow> descend (JObj r) (ks @ [k]) = map_of so' k"
    and win: "\<And>ks w. descend (JObj ?oo) ks = Some w \<and> \<not> isOptionObject w
             \<Longrightarrow> descend (JObj r) ks = Some w"
    by blast
  have "descend (JObj r) ([''level''] @ [''file''])
          = map_of [(''file'', JStr ''debug''), (''console'', JStr ''info'')] ''file''"
    by (rule keep [where oo' = "[(''console'', JStr ''debug'')]"]) simp
  moreover have "descend (JObj r) [''level'', ''console''] = Some (JStr ''debug'')"
    by (rule win) simp
  ultimately show ?thesis using r s ov by auto
qed

text \<open>
  C9 (as amended).  \<^verbatim>\<open>getFullConfig()\<close> is \<^verbatim>\<open>getConfig()\<close> without a path.  For a
  stored document with unique keys it is the merge of the whole stored document with the
  whole override tree: its keys are the top-level keys of both, and at every top-level
  key (not empty, without a dot) whose override is not null, which is a key of the
  override tree or names no inherited property of objects, and for which
  \<^verbatim>\<open>getConfig(key)\<close> returns, it holds what \<^verbatim>\<open>getConfig(key)\<close> returns.
\<close>

theorem C9_full_config_merges_whole_documents:
  assumes "wf_json (fst (getStore e st))"
    and "fst (getOverrides e None st) = Inr (Some (Data (JObj oo)))"
  shows "getFullConfig e st = getConfig e None st
       \<and> (\<exists>r. fst (getFullConfig e st) = Inr (Some (Data (JObj r)))
            \<and> set (map fst r) = set (map fst (disk (store e st))) \<union> set (map fst oo)
            \<and> (\<forall>k v. k \<noteq> [] \<and> CHR ''.'' \<notin> set k \<and> map_of oo k \<noteq> Some JNull
                     \<and> (map_of oo k \<noteq> None \<or> inherited (builtins e) KObject k = Inr None)
                     \<and> fst (getConfig e (Some k) st) = Inr v
                  \<longrightarrow> map_option Data (map_of r k) = v))"
proof -
  let ?d = "disk (store e st)"
  let ?r = "mergeKeys (mergeKeys [] ?d (own_keys ?d)) oo (own_keys oo)"
  have ov: "fst (overrides e st) = JObj oo"
    using assms(2) by (simp add: fst_getOverrides)
  have d: "mergeKeys [] ?d (own_keys ?d) = ?d"
    using assms(1) by (simp add: mergeKeys_copy)
  have full: "fst (getFullConfig e st) = Inr (Some (Data (JObj ?r)))"
    by (simp add: getFullConfig_def fst_getConfig ov Store_get_def dp_get_def Let_def
        not_nullish_def typeof_object_def mergeOptions_two)
  have keys: "set (map fst ?r) = set (map fst ?d) \<union> set (map fst oo)"
    by (simp add: keys_merged)
  have each: "map_option Data (map_of ?r k) = v"
    if k: "k \<noteq> []" "CHR ''.'' \<notin> set k" and n: "map_of oo k \<noteq> Some JNull"
      and i: "map_of oo k \<noteq> None \<or> inherited (builtins e) KObject k = Inr None"
      and g: "fst (getConfig e (Some k) st) = Inr v" for k v
  proof (cases "map_of oo k")
    case None
    with g k i show ?thesis
      by (simp add: fst_getConfig ov Store_get_def dp_get_plain_key getIn_plain_key Let_def
          not_nullish_def lookup_merged d)
  next
    case (Some w)
    with n have w: "w \<noteq> JNull" by simp
    then have nn: "not_nullish (Some (Data w))" by (cases w) (simp_all add: not_nullish_def)
    show ?thesis
    proof (cases "map_of ?d k")
      case None
      with g k Some nn show ?thesis
        by (auto simp: fst_getConfig ov Store_get_def dp_get_plain_key getIn_plain_key Let_def
            typeof_object_def lookup_merged d)
    next
      case sv: (Some c)
      show ?thesis
      proof (cases "typeof_object (Some c)")
        case False
        then have "\<not> isOptionObject c" by (cases c) (simp_all add: typeof_object_def)
        with False g k Some nn sv show ?thesis
          by (auto simp: fst_getConfig ov Store_get_def dp_get_plain_key getIn_plain_key Let_def
              lookup_merged d merge_other)
      next
        case True
        with g k Some nn sv obtain a b where ab: "c = JObj a" "w = JObj b"
          by (cases c; cases w)
             (simp_all add: fst_getConfig ov Store_get_def dp_get_plain_key getIn_plain_key
                Let_def typeof_object_def mergeOptions_def)
        from assms(1) sv ab have "distinct (map fst a)"
          by (auto intro: wf_json_entry)
        then have "mergeKeys [] a (own_keys a) = a" by (rule mergeKeys_copy)
        with g k Some nn sv ab True show ?thesis
          by (auto simp: fst_getConfig ov Store_get_def dp_get_plain_key getIn_plain_key Let_def
              lookup_merged d mergeOptions_two merge_obj)
      qed
    qed
  qed
  from full keys each show ?thesis
    by (intro conjI exI [of _ ?r]) (auto simp: getFullConfig_def)
qed

theorem C9_full_config_merges_whole_documents_witness:
  "wf_json (fst (getStore ex_env (init ex_defaults)))
   \<and> fst (getOverrides ex_env None (init ex_defaults)) = Inr (Some (Data (JObj (parsed_argv ex_env))))
   \<and> ''log'' \<noteq> [] \<and> CHR ''.'' \<notin> set ''log''
   \<and> map_of (parsed_argv ex_env) ''log'' \<noteq> Some JNull
   \<and> map_of (parsed_argv ex_env) ''log'' \<noteq> None
   \<and> fst (getConfig ex_env (Some ''log'') (init ex_defaults))
       = Inr (Some (Data (JObj [(''level'', JObj [(''file'', JStr ''debug''), (''console'', JStr ''debug'')])])))
   \<and> (\<exists>r. fst (getFullConfig ex_env (init ex_defaults)) = Inr (Some (Data (JObj r)))
          \<and> map_of r ''log''
              = Some (JObj [(''level'', JObj [(''file'', JStr ''debug''), (''console'', JStr ''debug'')])]))"
proof -
  have w: "wf_json (fst (getStore ex_env (init ex_defaults)))"
    by code_simp
  have o: "fst (getOverrides ex_env None (init ex_defaults)) = Inr (Some (Data (JObj (parsed_argv ex_env))))"
    by code_simp
  have k: "''log'' \<noteq> []" "CHR ''.'' \<notin> set ''log''"
    "map_of (parsed_argv ex_env) ''log'' \<noteq> Some JNull"
    "map_of (parsed_argv ex_env) ''log'' \<noteq> None"
    by (simp_all add: ex_env_def)
  have g: "fst (getConfig ex_env (Some ''log'') (init ex_defaults))
       = Inr (Some (Data (JObj [(''level'', JObj [(''file'', JStr ''debug''), (''console'', JStr ''debug'')])])))"
    by code_simp
  from C9_full_config_merges_whole_documents [OF w o] obtain r where
    r: "fst (getFullConfig ex_env (init ex_defaults)) = Inr (Some (Data (JObj r)))"
    and each: "\<And>k v. k \<noteq> [] \<and> CHR ''.'' \<notin> set k \<and> map_of (parsed_argv ex_env) k \<noteq> Some JNull
                     \<and> (map_of (parsed_argv ex_env) k \<noteq> None
                         \<or> inherited (builtins ex_env) KObject k = Inr None)
                     \<and> fst (getConfig ex_env (Some k) (init ex_defaults)) = Inr v
                  \<Longrightarrow> map_option Data (map_of r k) = v"
    by blast
  from k g have "map_option Data (map_of r ''log'')
       = Some (Data (JObj [(''level'', JObj [(''file'', JStr ''debug''), (''console'', JStr ''debug'')])]))"
    by (intro each) simp
  then have "map_of r ''log''
       = Some (JObj [(''level'', JObj [(''file'', JStr ''debug''), (''console'', JStr ''debug'')])])"
    by auto
  with w o k g r show ?thesis by blast
qed

text \<open>
  C9 (as stated) fails: the parser always yields the key \<^verbatim>\<open>_\<close>, which is no default
  key, so the full document has a key that resolving the default keys one by one cannot
  produce.  (With the empty string as path, \<^verbatim>\<open>getConfig\<close> returns the override tree
  alone; with the path \<^verbatim>\<open>constructor\<close> it returns the inherited function \<^verbatim>\<open>Object\<close>,
  which the full document does not hold.)
\<close>

theorem C9_per_key_counterexample:
  "fst (getFullConfig ex_env_plain (init ex_defaults))
     = Inr (Some (Data (JObj (ex_defaults @ [(''_'', JArr [])]))))
   \<and> resolve_each_default_key ex_env_plain (init ex_defaults) = ex_defaults
   \<and> fst (getFullConfig ex_env_plain (init ex_defaults))
     \<noteq> Inr (Some (Data (JObj (resolve_each_default_key ex_env_plain (init ex_defaults)))))
   \<and> fst (getConfig ex_env_plain (Some []) (init ex_defaults))
     = Inr (Some (Data (JObj [(''_'', JArr [])])))
   \<and> fst (getConfig ex_env_plain (Some ''constructor'') (init ex_defaults))
     = Inr (Some (Native ''Object''))"
  by code_simp

end
